theory Spec2Isabelle
  imports Main
begin

section \<open>JavaScript values and array primitives\<close>

text \<open>
  The history manager is generic in the snapshot type \<open>T\<close>. At run time a slot of type
  \<open>T\<close> holds any JavaScript value, and reading an array out of range produces
  \<open>undefined\<close>; a snapshot is therefore either \<open>Undefined\<close> or a proper value.
\<close>

datatype 'a jsval = Undefined | Val 'a

text \<open>
  \<open>Array.prototype.slice\<close>: a negative relative index counts from the end, and both
  bounds are clipped into \<open>[0, length]\<close>.
\<close>

definition rel_index :: "int \<Rightarrow> int \<Rightarrow> nat" where
  "rel_index len k = (if k < 0 then nat (max (len + k) 0) else nat (min k len))"

definition js_slice :: "'a list \<Rightarrow> int \<Rightarrow> int \<Rightarrow> 'a list" where
  "js_slice xs start fin =
     (let len = int (length xs);
          k = rel_index len start;
          final = rel_index len fin
      in take (final - k) (drop k xs))"

text \<open>\<open>xs.slice(start)\<close>: the end defaults to the length.\<close>

definition js_slice_from :: "'a list \<Rightarrow> int \<Rightarrow> 'a list" where
  "js_slice_from xs start = js_slice xs start (int (length xs))"

text \<open>\<open>xs[i]\<close> for an integer \<open>i\<close>: \<open>undefined\<close> outside \<open>[0, length)\<close>.\<close>

definition js_index :: "'a jsval list \<Rightarrow> int \<Rightarrow> 'a jsval" where
  "js_index xs i = (if 0 \<le> i \<and> i < int (length xs) then xs ! nat i else Undefined)"


section \<open>The data model (\<open>src/types/index.ts\<close>)\<close>

record 'a HistoryState =
  history :: "'a jsval list"
  currentIndex :: int
  initialState :: "'a jsval"

datatype 'a HistoryAction =
    SET_STATE "'a jsval"
  | UNDO
  | REDO
  | RESET
  | CLEAR
  | GO_TO_INDEX int

record HistoryManagerOptions =
  maxHistory :: int
  enableRedo :: bool


section \<open>The reducer (\<open>src/utils/history.ts\<close>)\<close>

fun historyReducer ::
  "'a HistoryState \<Rightarrow> 'a HistoryAction \<Rightarrow> HistoryManagerOptions \<Rightarrow> 'a HistoryState" where
  "historyReducer state (SET_STATE payload) opts =
     (let newHistory = js_slice (history state) 0 (currentIndex state + 1) @ [payload];
          trimmedHistory =
            (if int (length newHistory) > maxHistory opts
             then js_slice_from newHistory (- maxHistory opts)
             else newHistory)
      in state\<lparr>history := trimmedHistory,
               currentIndex := int (length trimmedHistory) - 1\<rparr>)"
| "historyReducer state UNDO opts =
     (if currentIndex state > 0
      then state\<lparr>currentIndex := currentIndex state - 1\<rparr>
      else state)"
| "historyReducer state REDO opts =
     (if enableRedo opts \<and> currentIndex state < int (length (history state)) - 1
      then state\<lparr>currentIndex := currentIndex state + 1\<rparr>
      else state)"
| "historyReducer state RESET opts =
     state\<lparr>history := [initialState state], currentIndex := 0\<rparr>"
| "historyReducer state CLEAR opts =
     (let currentState = js_index (history state) (currentIndex state)
      in state\<lparr>history := [currentState], currentIndex := 0\<rparr>)"
| "historyReducer state (GO_TO_INDEX payload) opts =
     (let targetIndex = max 0 (min payload (int (length (history state)) - 1))
      in state\<lparr>currentIndex := targetIndex\<rparr>)"


section \<open>The manager (\<open>createHistoryManager\<close>)\<close>

text \<open>
  The manager is a closure over the variable \<open>currentState\<close> and the fixed \<open>options\<close>.
  Each method replaces \<open>currentState\<close> by the reducer's result and returns it; the model
  returns the result together with the updated manager.
\<close>

record 'a HistoryManager =
  currentState :: "'a HistoryState"
  options :: HistoryManagerOptions

definition createHistoryManager ::
  "'a jsval \<Rightarrow> HistoryManagerOptions \<Rightarrow> 'a HistoryManager" where
  "createHistoryManager init opts =
     \<lparr>currentState = \<lparr>history = [init], currentIndex = 0, initialState = init\<rparr>,
      options = opts\<rparr>"

definition getState :: "'a HistoryManager \<Rightarrow> 'a HistoryState \<times> 'a HistoryManager" where
  "getState m = (currentState m, m)"

definition setState ::
  "'a HistoryManager \<Rightarrow> 'a jsval \<Rightarrow> 'a HistoryState \<times> 'a HistoryManager" where
  "setState m v =
     (let s = historyReducer (currentState m) (SET_STATE v) (options m)
      in (s, m\<lparr>currentState := s\<rparr>))"

definition undo :: "'a HistoryManager \<Rightarrow> 'a HistoryState \<times> 'a HistoryManager" where
  "undo m =
     (let s = historyReducer (currentState m) UNDO (options m)
      in (s, m\<lparr>currentState := s\<rparr>))"

definition redo :: "'a HistoryManager \<Rightarrow> 'a HistoryState \<times> 'a HistoryManager" where
  "redo m =
     (let s = historyReducer (currentState m) REDO (options m)
      in (s, m\<lparr>currentState := s\<rparr>))"

definition reset :: "'a HistoryManager \<Rightarrow> 'a HistoryState \<times> 'a HistoryManager" where
  "reset m =
     (let s = historyReducer (currentState m) RESET (options m)
      in (s, m\<lparr>currentState := s\<rparr>))"

definition clear :: "'a HistoryManager \<Rightarrow> 'a HistoryState \<times> 'a HistoryManager" where
  "clear m =
     (let s = historyReducer (currentState m) CLEAR (options m)
      in (s, m\<lparr>currentState := s\<rparr>))"

definition goToIndex ::
  "'a HistoryManager \<Rightarrow> int \<Rightarrow> 'a HistoryState \<times> 'a HistoryManager" where
  "goToIndex m i =
     (let s = historyReducer (currentState m) (GO_TO_INDEX i) (options m)
      in (s, m\<lparr>currentState := s\<rparr>))"

text \<open>A caller's use of the manager: a finite sequence of method calls.\<close>

datatype 'a call =
    GetState
  | SetState "'a jsval"
  | Undo
  | Redo
  | Reset
  | Clear
  | GoToIndex int

fun invoke :: "'a HistoryManager \<Rightarrow> 'a call \<Rightarrow> 'a HistoryState \<times> 'a HistoryManager" where
  "invoke m GetState = getState m"
| "invoke m (SetState v) = setState m v"
| "invoke m Undo = undo m"
| "invoke m Redo = redo m"
| "invoke m Reset = reset m"
| "invoke m Clear = clear m"
| "invoke m (GoToIndex i) = goToIndex m i"

fun run_calls :: "'a HistoryManager \<Rightarrow> 'a call list \<Rightarrow> 'a HistoryManager" where
  "run_calls m [] = m"
| "run_calls m (c # cs) = run_calls (snd (invoke m c)) cs"

text \<open>
  The state held by a manager built from \<open>init\<close> and \<open>opts\<close> after the calls \<open>cs\<close>:
  the reachable states are exactly the values of \<open>reached init opts cs\<close>.
\<close>

definition reached ::
  "'a jsval \<Rightarrow> HistoryManagerOptions \<Rightarrow> 'a call list \<Rightarrow> 'a HistoryState" where
  "reached init opts cs = currentState (run_calls (createHistoryManager init opts) cs)"

text \<open>The invariant of the data model, for a capacity \<open>M\<close>.\<close>

definition wf_state :: "int \<Rightarrow> 'a HistoryState \<Rightarrow> bool" where
  "wf_state M s \<longleftrightarrow>
     1 \<le> length (history s) \<and> int (length (history s)) \<le> M \<and>
     0 \<le> currentIndex s \<and> currentIndex s \<le> int (length (history s)) - 1"


section \<open>The operations as the specification words them\<close>

text \<open>
  \<open>setState\<close> in four steps: truncate to the indices \<open>[0, currentIndex]\<close>, append the
  value, keep only the last \<open>M\<close> elements when the length exceeds \<open>M\<close>, and put the
  cursor on the new last index.
\<close>

definition last_elements :: "nat \<Rightarrow> 'a list \<Rightarrow> 'a list" where
  "last_elements n xs = drop (length xs - n) xs"

definition setState_spec :: "int \<Rightarrow> 'a HistoryState \<Rightarrow> 'a jsval \<Rightarrow> 'a HistoryState" where
  "setState_spec M s v =
     (let truncated = take (nat (currentIndex s) + 1) (history s);
          appended = truncated @ [v];
          retained = (if int (length appended) > M
                      then last_elements (nat M) appended else appended)
      in s\<lparr>history := retained, currentIndex := int (length retained) - 1\<rparr>)"

text \<open>Values below \<open>lo\<close> clamp to \<open>lo\<close>, values beyond \<open>hi\<close> clamp to \<open>hi\<close>.\<close>

definition clamp :: "int \<Rightarrow> int \<Rightarrow> int \<Rightarrow> int" where
  "clamp i lo hi = (if i < lo then lo else if hi < i then hi else i)"

text \<open>The snapshot under the cursor, \<open>history[currentIndex]\<close>.\<close>

definition current_snapshot :: "'a HistoryState \<Rightarrow> 'a jsval" where
  "current_snapshot s = js_index (history s) (currentIndex s)"

text \<open>
  The entries after the cursor (the redo-able future), and whether a list of entries
  is still present in a later state.
\<close>

definition entries_after_cursor :: "'a HistoryState \<Rightarrow> 'a jsval list" where
  "entries_after_cursor s = drop (nat (currentIndex s + 1)) (history s)"

definition oldest_entry :: "'a HistoryState \<Rightarrow> 'a jsval" where
  "oldest_entry s = js_index (history s) 0"

definition retained_in :: "'a jsval list \<Rightarrow> 'a HistoryState \<Rightarrow> bool" where
  "retained_in xs s' \<longleftrightarrow> set xs \<subseteq> set (history s')"


section \<open>The reducer over a store of objects and arrays\<close>

text \<open>
  In the source a \<open>HistoryState\<close> is an object and its \<open>history\<close> an array, both held by
  reference. To speak about identity and in-place mutation the reducer is given a second
  time over an explicit store: an address is an index into the store, allocation appends
  a cell. The object spread \<open>{...state, f: v}\<close> allocates a new object that copies the
  remaining fields, so the copy shares the \<open>history\<close> array of the original;
  \<open>slice\<close> and array literals allocate a new array; \<open>push\<close> updates an array in place;
  \<open>return state\<close> returns the reference it was given.
\<close>

type_synonym ref = nat

record 'a StateObject =
  historyRef :: ref
  currentIndexOf :: int
  initialStateOf :: "'a jsval"

record 'a store =
  arrays :: "'a jsval list list"
  objects :: "'a StateObject list"

definition alloc_array :: "'a jsval list \<Rightarrow> 'a store \<Rightarrow> ref \<times> 'a store" where
  "alloc_array xs h = (length (arrays h), h\<lparr>arrays := arrays h @ [xs]\<rparr>)"

definition alloc_object :: "'a StateObject \<Rightarrow> 'a store \<Rightarrow> ref \<times> 'a store" where
  "alloc_object obj h = (length (objects h), h\<lparr>objects := objects h @ [obj]\<rparr>)"

definition array_push :: "ref \<Rightarrow> 'a jsval \<Rightarrow> 'a store \<Rightarrow> 'a store" where
  "array_push a v h = h\<lparr>arrays := (arrays h)[a := arrays h ! a @ [v]]\<rparr>"

text \<open>A reference is valid when the object and its history array are allocated.\<close>

definition valid_ref :: "'a store \<Rightarrow> ref \<Rightarrow> bool" where
  "valid_ref h r \<longleftrightarrow>
     r < length (objects h) \<and> historyRef (objects h ! r) < length (arrays h)"

fun historyReducerR ::
  "'a store \<Rightarrow> ref \<Rightarrow> 'a HistoryAction \<Rightarrow> HistoryManagerOptions \<Rightarrow> ref \<times> 'a store" where
  "historyReducerR h state (SET_STATE payload) opts =
     (let st = objects h ! state;
          (newHistory, h1) =
             alloc_array (js_slice (arrays h ! historyRef st) 0 (currentIndexOf st + 1)) h;
          h2 = array_push newHistory payload h1;
          (trimmedHistory, h3) =
            (if int (length (arrays h2 ! newHistory)) > maxHistory opts
             then alloc_array (js_slice_from (arrays h2 ! newHistory) (- maxHistory opts)) h2
             else (newHistory, h2))
      in alloc_object
           \<lparr>historyRef = trimmedHistory,
            currentIndexOf = int (length (arrays h3 ! trimmedHistory)) - 1,
            initialStateOf = initialStateOf st\<rparr> h3)"
| "historyReducerR h state UNDO opts =
     (let st = objects h ! state
      in if currentIndexOf st > 0
         then alloc_object (st\<lparr>currentIndexOf := currentIndexOf st - 1\<rparr>) h
         else (state, h))"
| "historyReducerR h state REDO opts =
     (let st = objects h ! state
      in if enableRedo opts \<and>
            currentIndexOf st < int (length (arrays h ! historyRef st)) - 1
         then alloc_object (st\<lparr>currentIndexOf := currentIndexOf st + 1\<rparr>) h
         else (state, h))"
| "historyReducerR h state RESET opts =
     (let st = objects h ! state;
          (a, h1) = alloc_array [initialStateOf st] h
      in alloc_object (st\<lparr>historyRef := a, currentIndexOf := 0\<rparr>) h1)"
| "historyReducerR h state CLEAR opts =
     (let st = objects h ! state;
          currentState = js_index (arrays h ! historyRef st) (currentIndexOf st);
          (a, h1) = alloc_array [currentState] h
      in alloc_object (st\<lparr>historyRef := a, currentIndexOf := 0\<rparr>) h1)"
| "historyReducerR h state (GO_TO_INDEX payload) opts =
     (let st = objects h ! state;
          targetIndex = max 0 (min payload (int (length (arrays h ! historyRef st)) - 1))
      in alloc_object (st\<lparr>currentIndexOf := targetIndex\<rparr>) h)"

text \<open>The initial state object of \<open>createHistoryManager\<close>, allocated in the empty store.\<close>

definition createInitialR :: "'a jsval \<Rightarrow> ref \<times> 'a store" where
  "createInitialR init =
     (let (a, h1) = alloc_array [init] \<lparr>arrays = [], objects = []\<rparr>
      in alloc_object \<lparr>historyRef = a, currentIndexOf = 0, initialStateOf = init\<rparr> h1)"

text \<open>A sequence of reducer steps over the store, each on the reference last returned.\<close>

fun run_actionsR ::
  "ref \<times> 'a store \<Rightarrow> 'a HistoryAction list \<Rightarrow> HistoryManagerOptions \<Rightarrow> ref \<times> 'a store" where
  "run_actionsR rh [] opts = rh"
| "run_actionsR rh (a # as) opts =
     run_actionsR (historyReducerR (snd rh) (fst rh) a opts) as opts"

text \<open>The value a reference stands for: the record of the value-level model.\<close>

definition state_of :: "'a store \<Rightarrow> ref \<Rightarrow> 'a HistoryState" where
  "state_of h r =
     \<lparr>history = arrays h ! historyRef (objects h ! r),
      currentIndex = currentIndexOf (objects h ! r),
      initialState = initialStateOf (objects h ! r)\<rparr>"

text \<open>
  An operation returns a no-op result when the reducer takes its \<open>return state\<close> branch:
  undo at the first entry, redo when disabled or with no later entry.
\<close>

definition is_noop :: "'a HistoryState \<Rightarrow> 'a HistoryAction \<Rightarrow> HistoryManagerOptions \<Rightarrow> bool" where
  "is_noop s a opts \<longleftrightarrow>
     (a = UNDO \<and> \<not> currentIndex s > 0) \<or>
     (a = REDO \<and> \<not> (enableRedo opts \<and> currentIndex s < int (length (history s)) - 1))"


text \<open>The cursor is on the last entry of a non-empty history.\<close>

definition at_end :: "'a HistoryState \<Rightarrow> bool" where
  "at_end s \<longleftrightarrow> history s \<noteq> [] \<and> currentIndex s = int (length (history s)) - 1"


section \<open>Basic facts about the primitives\<close>

lemma js_slice_prefix:
  "0 \<le> n \<Longrightarrow> js_slice xs 0 n = take (nat n) xs"
  by (simp add: js_slice_def rel_index_def Let_def min_def)

lemma js_slice_from_last:
  "1 \<le> M \<Longrightarrow> int (length xs) > M \<Longrightarrow>
   js_slice_from xs (- M) = drop (length xs - nat M) xs"
  by (simp add: js_slice_from_def js_slice_def rel_index_def Let_def max_def nat_diff_distrib')

lemma invoke_options: "options (snd (invoke m c)) = options m"
  by (cases c) (simp_all add: getState_def setState_def undo_def redo_def reset_def
      clear_def goToIndex_def Let_def)

lemma run_calls_options: "options (run_calls m cs) = options m"
  by (induction cs arbitrary: m) (simp_all add: invoke_options)

lemma run_calls_append:
  "run_calls m (cs @ ds) = run_calls (run_calls m cs) ds"
  by (induction cs arbitrary: m) simp_all

lemma wf_state_reducer:
  assumes "1 \<le> maxHistory opts" and "wf_state (maxHistory opts) s"
  shows "wf_state (maxHistory opts) (historyReducer s a opts)"
proof (cases a)
  case (SET_STATE v)
  with assms show ?thesis
    by (auto simp: wf_state_def Let_def js_slice_prefix js_slice_from_last)
next
  case (GO_TO_INDEX i)
  with assms show ?thesis by (auto simp: wf_state_def Let_def)
qed (use assms in \<open>auto simp: wf_state_def Let_def\<close>)

lemma wf_state_invoke:
  assumes "1 \<le> maxHistory (options m)"
    and "wf_state (maxHistory (options m)) (currentState m)"
  shows "wf_state (maxHistory (options m)) (currentState (snd (invoke m c)))"
  using assms wf_state_reducer [of "options m" "currentState m"]
  by (cases c) (simp_all add: getState_def setState_def undo_def redo_def reset_def
      clear_def goToIndex_def Let_def del: historyReducer.simps)

lemma wf_state_run_calls:
  assumes "1 \<le> maxHistory (options m)"
    and "wf_state (maxHistory (options m)) (currentState m)"
  shows "wf_state (maxHistory (options m)) (currentState (run_calls m cs))"
  using assms
proof (induction cs arbitrary: m)
  case Nil
  then show ?case by simp
next
  case (Cons c cs)
  have "wf_state (maxHistory (options (snd (invoke m c))))
          (currentState (run_calls (snd (invoke m c)) cs))"
    using Cons.prems wf_state_invoke [of m c]
    by (intro Cons.IH) (simp_all add: invoke_options)
  then show ?case by (simp add: invoke_options)
qed

lemma wf_state_reached:
  "1 \<le> maxHistory opts \<Longrightarrow> wf_state (maxHistory opts) (reached init opts cs)"
  using wf_state_run_calls [of "createHistoryManager init opts" cs]
  by (simp add: reached_def createHistoryManager_def wf_state_def)


lemma reducer_initialState: "initialState (historyReducer s a opts) = initialState s"
  by (cases a) (simp_all add: Let_def)

lemma invoke_initialState:
  "initialState (currentState (snd (invoke m c))) = initialState (currentState m)"
  by (cases c) (simp_all add: getState_def setState_def undo_def redo_def reset_def
      clear_def goToIndex_def Let_def reducer_initialState del: historyReducer.simps)

lemma run_calls_initialState:
  "initialState (currentState (run_calls m cs)) = initialState (currentState m)"
  by (induction cs arbitrary: m) (simp_all add: invoke_initialState)

lemma reached_initialState: "initialState (reached init opts cs) = init"
  by (simp add: reached_def run_calls_initialState) (simp add: createHistoryManager_def)

lemma reached_options: "options (run_calls (createHistoryManager init opts) cs) = opts"
  by (simp add: run_calls_options) (simp add: createHistoryManager_def)

text \<open>One more call on a reachable state is one reducer step on it.\<close>

lemma reached_snoc:
  "reached init opts (cs @ [SetState v])
     = historyReducer (reached init opts cs) (SET_STATE v) opts"
  "reached init opts (cs @ [Undo]) = historyReducer (reached init opts cs) UNDO opts"
  "reached init opts (cs @ [Redo]) = historyReducer (reached init opts cs) REDO opts"
  "reached init opts (cs @ [Reset]) = historyReducer (reached init opts cs) RESET opts"
  "reached init opts (cs @ [Clear]) = historyReducer (reached init opts cs) CLEAR opts"
  "reached init opts (cs @ [GoToIndex i])
     = historyReducer (reached init opts cs) (GO_TO_INDEX i) opts"
  "reached init opts (cs @ [GetState]) = reached init opts cs"
  by (simp_all add: reached_def run_calls_append reached_options getState_def setState_def
      undo_def redo_def reset_def clear_def goToIndex_def Let_def del: historyReducer.simps)

lemma reached_append2:
  "reached init opts (cs @ [c, d])
     = currentState (snd (invoke (snd (invoke (run_calls (createHistoryManager init opts) cs) c)) d))"
  by (simp add: reached_def run_calls_append)


section \<open>Writing: truncation and the sliding window\<close>

lemma last_elements_absorb:
  "last_elements n (last_elements n xs @ ys) = last_elements n (xs @ ys)"
  by (cases "length xs \<le> n") (simp_all add: last_elements_def add.commute)

lemma last_elements_suffix:
  "n \<le> length ys \<Longrightarrow> last_elements n (xs @ ys) = drop (length ys - n) ys"
  by (simp add: last_elements_def)

text \<open>A write from any record whatsoever: some prefix survives, and the cursor is last.\<close>

lemma set_state_any:
  assumes "1 \<le> maxHistory opts"
  shows "history (historyReducer s (SET_STATE v) opts)
           = last_elements (nat (maxHistory opts))
               (js_slice (history s) 0 (currentIndex s + 1) @ [v])"
    and "at_end (historyReducer s (SET_STATE v) opts)"
  using assms
  by (auto simp: Let_def at_end_def last_elements_def js_slice_from_last)

lemma set_state_at_end:
  assumes "1 \<le> maxHistory opts" and "at_end s"
  shows "history (historyReducer s (SET_STATE v) opts)
           = last_elements (nat (maxHistory opts)) (history s @ [v])"
  using assms set_state_any(1) [OF assms(1), of s v]
  by (simp add: at_end_def js_slice_prefix del: historyReducer.simps)

lemma set_state_refines:
  assumes "1 \<le> M" and "0 \<le> currentIndex s" and "maxHistory opts = M"
  shows "historyReducer s (SET_STATE v) opts = setState_spec M s v"
  using assms
  by (simp add: setState_spec_def Let_def js_slice_prefix js_slice_from_last
      last_elements_def nat_add_distrib)

lemma writes_at_end:
  assumes "1 \<le> maxHistory (options m)" and "at_end (currentState m)"
  shows "at_end (currentState (run_calls m (map SetState vs))) \<and>
         (vs \<noteq> [] \<longrightarrow>
          history (currentState (run_calls m (map SetState vs)))
            = last_elements (nat (maxHistory (options m))) (history (currentState m) @ vs))"
  using assms
proof (induction vs arbitrary: m)
  case Nil
  then show ?case by simp
next
  case (Cons v vs)
  let ?m' = "snd (setState m v)"
  have opts: "options ?m' = options m" by (simp add: setState_def Let_def)
  have cur: "currentState ?m' = historyReducer (currentState m) (SET_STATE v) (options m)"
    by (simp add: setState_def Let_def)
  have ae: "at_end (currentState ?m')"
    unfolding cur using Cons.prems(1) by (rule set_state_any(2))
  have h1: "history (currentState ?m')
      = last_elements (nat (maxHistory (options m))) (history (currentState m) @ [v])"
    unfolding cur using Cons.prems by (rule set_state_at_end)
  have IH: "at_end (currentState (run_calls ?m' (map SetState vs))) \<and>
         (vs \<noteq> [] \<longrightarrow>
          history (currentState (run_calls ?m' (map SetState vs)))
            = last_elements (nat (maxHistory (options m))) (history (currentState ?m') @ vs))"
    using Cons.IH [of ?m'] Cons.prems(1) ae opts by simp
  show ?case
  proof (cases "vs = []")
    case True
    then show ?thesis using h1 ae by simp
  next
    case False
    then show ?thesis using IH by (simp add: h1 last_elements_absorb)
  qed
qed

lemma writes_any:
  assumes "1 \<le> maxHistory opts" and "int (length vs) \<ge> maxHistory opts"
  shows "history (currentState
            (run_calls \<lparr>currentState = s, options = opts\<rparr> (map SetState vs)))
           = drop (length vs - nat (maxHistory opts)) vs"
    and "currentIndex (currentState
            (run_calls \<lparr>currentState = s, options = opts\<rparr> (map SetState vs)))
           = maxHistory opts - 1"
proof -
  let ?m = "\<lparr>currentState = s, options = opts\<rparr>"
  let ?M = "nat (maxHistory opts)"
  from assms obtain v ws where vs: "vs = v # ws" by (cases vs) auto
  let ?m' = "snd (setState ?m v)"
  let ?p = "js_slice (history s) 0 (currentIndex s + 1)"
  have opts: "options ?m' = opts" by (simp add: setState_def Let_def)
  have cur: "currentState ?m' = historyReducer s (SET_STATE v) opts"
    by (simp add: setState_def Let_def)
  have ae: "at_end (currentState ?m')"
    unfolding cur using assms(1) by (rule set_state_any(2))
  have h1: "history (currentState ?m') = last_elements ?M (?p @ [v])"
    unfolding cur using assms(1) by (rule set_state_any(1))
  have W: "at_end (currentState (run_calls ?m' (map SetState ws))) \<and>
         (ws \<noteq> [] \<longrightarrow>
          history (currentState (run_calls ?m' (map SetState ws)))
            = last_elements ?M (history (currentState ?m') @ ws))"
    using writes_at_end [of ?m' ws] assms(1) ae opts by simp
  have "history (currentState (run_calls ?m' (map SetState ws)))
          = last_elements ?M (?p @ vs)"
  proof (cases "ws = []")
    case True
    then show ?thesis using h1 vs by simp
  next
    case False
    then show ?thesis using W by (simp add: h1 last_elements_absorb vs)
  qed
  moreover have "?M \<le> length vs" using assms by simp
  ultimately have H: "history (currentState (run_calls ?m' (map SetState ws)))
          = drop (length vs - ?M) vs"
    by (simp add: last_elements_suffix)
  then show "history (currentState (run_calls ?m (map SetState vs)))
           = drop (length vs - ?M) vs"
    by (simp add: vs)
  have "currentIndex (currentState (run_calls ?m' (map SetState ws)))
          = int (length (drop (length vs - ?M) vs)) - 1"
    using W H by (simp add: at_end_def)
  also have "\<dots> = maxHistory opts - 1" using assms by simp
  finally show "currentIndex (currentState (run_calls ?m (map SetState vs)))
      = maxHistory opts - 1"
    by (simp add: vs)
qed


section \<open>The store-level reducer against the value-level reducer\<close>

lemmas store_defs = alloc_array_def alloc_object_def array_push_def

lemma reducerR_arrays_kept:
  "take (length (arrays h)) (arrays (snd (historyReducerR h r a opts))) = arrays h"
  by (cases a) (simp_all add: store_defs Let_def split: prod.splits)

lemma reducerR_objects_kept:
  "take (length (objects h)) (objects (snd (historyReducerR h r a opts))) = objects h"
  by (cases a) (simp_all add: store_defs Let_def split: prod.splits)

lemma reducerR_simulates:
  assumes "valid_ref h r"
  shows "state_of (snd (historyReducerR h r a opts)) (fst (historyReducerR h r a opts))
           = historyReducer (state_of h r) a opts"
  using assms
  by (cases a) (simp_all add: store_defs valid_ref_def state_of_def Let_def nth_append
      split: prod.splits)

lemma reducerR_valid:
  assumes "valid_ref h r"
  shows "valid_ref (snd (historyReducerR h r a opts)) (fst (historyReducerR h r a opts))"
  using assms
  by (cases a) (simp_all add: store_defs valid_ref_def Let_def nth_append split: prod.splits)

lemma reducerR_identity:
  assumes "valid_ref h r"
  shows "if is_noop (state_of h r) a opts
         then historyReducerR h r a opts = (r, h)
         else fst (historyReducerR h r a opts) = length (objects h)"
  using assms
  by (cases a) (simp_all add: store_defs valid_ref_def state_of_def is_noop_def Let_def
      split: prod.splits)

text \<open>Every reference a manager can come to hold is valid.\<close>

lemma createInitialR_valid:
  "valid_ref (snd (createInitialR init)) (fst (createInitialR init))"
  by (simp add: createInitialR_def store_defs valid_ref_def)

lemma run_actionsR_valid:
  "valid_ref (snd rh) (fst rh) \<Longrightarrow>
   valid_ref (snd (run_actionsR rh as opts)) (fst (run_actionsR rh as opts))"
  by (induction as arbitrary: rh) (simp_all add: reducerR_valid del: historyReducerR.simps)

lemma reachableR_valid:
  "valid_ref (snd (run_actionsR (createInitialR init) as opts))
             (fst (run_actionsR (createInitialR init) as opts))"
  by (rule run_actionsR_valid) (rule createInitialR_valid)

text \<open>Unfolding the manager and the array primitives on concrete inputs.\<close>

lemmas run_defs =
  reached_def createHistoryManager_def getState_def setState_def undo_def redo_def
  reset_def clear_def goToIndex_def js_slice_def js_slice_from_def rel_index_def
  js_index_def Let_def


section \<open>Claims\<close>

text \<open>
  C1. For every sequence of calls (setState, undo, redo, reset, clear, goToIndex with an
  integer argument; also getState) on a manager created with \<open>maxHistory \<ge> 1\<close>, the
  state held by the manager satisfies \<open>1 \<le> history.length \<le> maxHistory\<close> and
  \<open>0 \<le> currentIndex \<le> history.length - 1\<close>.
\<close>

theorem C1_reachable_invariant:
  assumes "1 \<le> maxHistory opts"
  shows "1 \<le> length (history (reached init opts cs)) \<and>
         int (length (history (reached init opts cs))) \<le> maxHistory opts \<and>
         0 \<le> currentIndex (reached init opts cs) \<and>
         currentIndex (reached init opts cs)
           \<le> int (length (history (reached init opts cs))) - 1"
  using wf_state_reached [OF assms, of init cs] by (simp add: wf_state_def)

theorem C1_reachable_invariant_witness:
  "1 \<le> maxHistory \<lparr>maxHistory = 3, enableRedo = True\<rparr> \<and>
   history (reached (Val ''initial'') \<lparr>maxHistory = 3, enableRedo = True\<rparr>
     [SetState (Val ''a''), SetState (Val ''b''), SetState (Val ''c''), SetState (Val ''d''),
      Undo, GoToIndex 7])
     = [Val ''b'', Val ''c'', Val ''d''] \<and>
   1 \<le> length (history (reached (Val ''initial'') \<lparr>maxHistory = 3, enableRedo = True\<rparr>
     [SetState (Val ''a''), SetState (Val ''b''), SetState (Val ''c''), SetState (Val ''d''),
      Undo, GoToIndex 7])) \<and>
   int (length (history (reached (Val ''initial'') \<lparr>maxHistory = 3, enableRedo = True\<rparr>
     [SetState (Val ''a''), SetState (Val ''b''), SetState (Val ''c''), SetState (Val ''d''),
      Undo, GoToIndex 7]))) \<le> 3 \<and>
   currentIndex (reached (Val ''initial'') \<lparr>maxHistory = 3, enableRedo = True\<rparr>
     [SetState (Val ''a''), SetState (Val ''b''), SetState (Val ''c''), SetState (Val ''d''),
      Undo, GoToIndex 7]) = 2"
  using C1_reachable_invariant [of "\<lparr>maxHistory = 3, enableRedo = True\<rparr>" "Val ''initial''"
      "[SetState (Val ''a''), SetState (Val ''b''), SetState (Val ''c''), SetState (Val ''d''),
        Undo, GoToIndex 7]"]
  by (simp add: reached_def createHistoryManager_def setState_def undo_def goToIndex_def
      js_slice_def js_slice_from_def rel_index_def Let_def)

text \<open>
  C2. \<open>setState(value)\<close> truncates the history to the indices \<open>[0, currentIndex]\<close>,
  appends the value, keeps only the last \<open>maxHistory\<close> elements when the length exceeds
  \<open>maxHistory\<close>, and puts the cursor on the new last index (\<open>setState_spec\<close>, on every
  reachable state). Consequently more than \<open>maxHistory\<close> consecutive \<open>setState\<close> calls,
  from a manager holding any state \<open>s\<close>, leave a history of length exactly \<open>maxHistory\<close>
  that holds the most recent \<open>maxHistory\<close> written values in write order, with the
  cursor on the newest entry.
\<close>

theorem C2_setState_sliding_window:
  assumes "1 \<le> maxHistory opts"
  shows "reached init opts (cs @ [SetState v])
           = setState_spec (maxHistory opts) (reached init opts cs) v \<and>
         (maxHistory opts < int (length vs) \<longrightarrow>
            history (currentState
                (run_calls \<lparr>currentState = s, options = opts\<rparr> (map SetState vs)))
              = last_elements (nat (maxHistory opts)) vs \<and>
            int (length (history (currentState
                (run_calls \<lparr>currentState = s, options = opts\<rparr> (map SetState vs)))))
              = maxHistory opts \<and>
            currentIndex (currentState
                (run_calls \<lparr>currentState = s, options = opts\<rparr> (map SetState vs)))
              = maxHistory opts - 1)"
proof -
  have "0 \<le> currentIndex (reached init opts cs)"
    using wf_state_reached [OF assms, of init cs] by (simp add: wf_state_def)
  then have step: "reached init opts (cs @ [SetState v])
           = setState_spec (maxHistory opts) (reached init opts cs) v"
    using assms by (simp only: reached_snoc set_state_refines)
  have many: "history (currentState
                (run_calls \<lparr>currentState = s, options = opts\<rparr> (map SetState vs)))
              = last_elements (nat (maxHistory opts)) vs \<and>
            int (length (history (currentState
                (run_calls \<lparr>currentState = s, options = opts\<rparr> (map SetState vs)))))
              = maxHistory opts \<and>
            currentIndex (currentState
                (run_calls \<lparr>currentState = s, options = opts\<rparr> (map SetState vs)))
              = maxHistory opts - 1"
    if "maxHistory opts < int (length vs)"
  proof -
    from that have le: "maxHistory opts \<le> int (length vs)" by simp
    show ?thesis
      using writes_any [OF assms le, of s] assms le
      by (simp add: last_elements_def)
  qed
  from step many show ?thesis by blast
qed

theorem C2_setState_sliding_window_witness:
  "1 \<le> maxHistory \<lparr>maxHistory = 3, enableRedo = True\<rparr> \<and>
   maxHistory \<lparr>maxHistory = 3, enableRedo = True\<rparr>
     < int (length [Val ''a'', Val ''b'', Val ''c'', Val ''d'']) \<and>
   reached (Val ''initial'') \<lparr>maxHistory = 3, enableRedo = True\<rparr>
       ([SetState (Val ''x''), SetState (Val ''y''), Undo] @ [SetState (Val ''z'')])
     = \<lparr>history = [Val ''initial'', Val ''x'', Val ''z''], currentIndex = 2,
        initialState = Val ''initial''\<rparr> \<and>
   setState_spec 3
       (reached (Val ''initial'') \<lparr>maxHistory = 3, enableRedo = True\<rparr>
          [SetState (Val ''x''), SetState (Val ''y''), Undo]) (Val ''z'')
     = \<lparr>history = [Val ''initial'', Val ''x'', Val ''z''], currentIndex = 2,
        initialState = Val ''initial''\<rparr> \<and>
   currentState (run_calls
       \<lparr>currentState = \<lparr>history = [Val ''p'', Val ''q''], currentIndex = 0,
                        initialState = Val ''p''\<rparr>,
        options = \<lparr>maxHistory = 3, enableRedo = True\<rparr>\<rparr>
       (map SetState [Val ''a'', Val ''b'', Val ''c'', Val ''d'']))
     = \<lparr>history = [Val ''b'', Val ''c'', Val ''d''], currentIndex = 2,
        initialState = Val ''p''\<rparr>"
  using C2_setState_sliding_window [of "\<lparr>maxHistory = 3, enableRedo = True\<rparr>"
      "Val ''initial''" "[SetState (Val ''x''), SetState (Val ''y''), Undo]" "Val ''z''"
      "[Val ''a'', Val ''b'', Val ''c'', Val ''d'']"
      "\<lparr>history = [Val ''p'', Val ''q''], currentIndex = 0, initialState = Val ''p''\<rparr>"]
  by (simp add: run_defs setState_spec_def last_elements_def)



text \<open>
  C4, as amended. \<open>undo\<close>, \<open>redo\<close> and \<open>goToIndex\<close> never remove an entry: on every state
  they leave the history exactly as it was, so they neither discard entries after the
  cursor nor evict the oldest entries. \<open>reset\<close> and \<open>clear\<close> do remove entries: \<open>reset\<close>
  replaces the history by \<open>[initialState]\<close> and \<open>clear\<close> by \<open>[history[currentIndex]]\<close>,
  dropping every other entry, before and after the cursor.
\<close>

theorem C4_history_frame:
  "history (reached init opts (cs @ [Undo])) = history (reached init opts cs) \<and>
   history (reached init opts (cs @ [Redo])) = history (reached init opts cs) \<and>
   history (reached init opts (cs @ [GoToIndex i])) = history (reached init opts cs) \<and>
   history (reached init opts (cs @ [Reset])) = [init] \<and>
   history (reached init opts (cs @ [Clear])) = [current_snapshot (reached init opts cs)]"
  by (simp add: reached_snoc reached_initialState Let_def current_snapshot_def)

text \<open>
  C4 as stated fails: after \<open>setState(a)\<close>, \<open>setState(b)\<close>, \<open>undo\<close> the history is
  \<open>[initial, a, b]\<close> with the cursor on \<open>a\<close>; \<open>clear\<close> then discards the entry \<open>b\<close> after
  the cursor and the oldest entry \<open>initial\<close>, and \<open>reset\<close> discards \<open>b\<close> as well;
  a \<open>setState\<close> from the same state would have kept \<open>initial\<close>.
\<close>

theorem C4_counterexample:
  "history (reached (Val ''initial'') \<lparr>maxHistory = 50, enableRedo = True\<rparr>
      [SetState (Val ''a''), SetState (Val ''b''), Undo])
     = [Val ''initial'', Val ''a'', Val ''b''] \<and>
   entries_after_cursor (reached (Val ''initial'') \<lparr>maxHistory = 50, enableRedo = True\<rparr>
      [SetState (Val ''a''), SetState (Val ''b''), Undo]) = [Val ''b''] \<and>
   \<not> retained_in
       (entries_after_cursor (reached (Val ''initial'') \<lparr>maxHistory = 50, enableRedo = True\<rparr>
          [SetState (Val ''a''), SetState (Val ''b''), Undo]))
       (reached (Val ''initial'') \<lparr>maxHistory = 50, enableRedo = True\<rparr>
          [SetState (Val ''a''), SetState (Val ''b''), Undo, Clear]) \<and>
   \<not> retained_in
       [oldest_entry (reached (Val ''initial'') \<lparr>maxHistory = 50, enableRedo = True\<rparr>
          [SetState (Val ''a''), SetState (Val ''b''), Undo])]
       (reached (Val ''initial'') \<lparr>maxHistory = 50, enableRedo = True\<rparr>
          [SetState (Val ''a''), SetState (Val ''b''), Undo, Clear]) \<and>
   \<not> retained_in
       (entries_after_cursor (reached (Val ''initial'') \<lparr>maxHistory = 50, enableRedo = True\<rparr>
          [SetState (Val ''a''), SetState (Val ''b''), Undo]))
       (reached (Val ''initial'') \<lparr>maxHistory = 50, enableRedo = True\<rparr>
          [SetState (Val ''a''), SetState (Val ''b''), Undo, Reset]) \<and>
   retained_in
       [oldest_entry (reached (Val ''initial'') \<lparr>maxHistory = 50, enableRedo = True\<rparr>
          [SetState (Val ''a''), SetState (Val ''b''), Undo])]
       (reached (Val ''initial'') \<lparr>maxHistory = 50, enableRedo = True\<rparr>
          [SetState (Val ''a''), SetState (Val ''b''), Undo, SetState (Val ''z'')])"
  by (simp add: run_defs entries_after_cursor_def oldest_entry_def retained_in_def)

text \<open>
  C5, as amended. No operation mutates anything that exists: every array and every
  state record allocated before the call is untouched after it, so prior references stay
  good. The reference returned stands for the value the reducer computes. \<open>setState\<close>,
  \<open>reset\<close>, \<open>clear\<close>, \<open>goToIndex\<close>, and \<open>undo\<close> and \<open>redo\<close> when they move the cursor,
  return a newly allocated record, distinct from the input; in the no-op cases (\<open>undo\<close> at
  \<open>currentIndex\<close> 0, \<open>redo\<close> with no later entry or with redo disabled) the operation
  returns the input record itself, the same reference, and allocates nothing.
\<close>

theorem C5_no_mutation_fresh_unless_noop:
  assumes "valid_ref h r"
  shows "take (length (arrays h)) (arrays (snd (historyReducerR h r a opts))) = arrays h \<and>
         take (length (objects h)) (objects (snd (historyReducerR h r a opts))) = objects h \<and>
         state_of (snd (historyReducerR h r a opts)) (fst (historyReducerR h r a opts))
           = historyReducer (state_of h r) a opts \<and>
         (is_noop (state_of h r) a opts \<longrightarrow> historyReducerR h r a opts = (r, h)) \<and>
         (\<not> is_noop (state_of h r) a opts \<longrightarrow>
            fst (historyReducerR h r a opts) = length (objects h) \<and>
            fst (historyReducerR h r a opts) \<noteq> r)"
proof -
  have "r < length (objects h)" using assms by (simp add: valid_ref_def)
  then show ?thesis
    using reducerR_identity [OF assms, of a opts] reducerR_simulates [OF assms, of a opts]
    by (auto simp only: reducerR_arrays_kept reducerR_objects_kept split: if_splits)
qed

theorem C5_no_mutation_fresh_unless_noop_witness:
  "run_actionsR (createInitialR (Val ''initial'')) [SET_STATE (Val ''a'')] \<lparr>maxHistory = 3, enableRedo = True\<rparr>
     = (1, 
        \<lparr>arrays = [[Val ''initial''], [Val ''initial'', Val ''a'']],
         objects = [\<lparr>historyRef = 0, currentIndexOf = 0, initialStateOf = Val ''initial''\<rparr>,
                    \<lparr>historyRef = 1, currentIndexOf = 1, initialStateOf = Val ''initial''\<rparr>]\<rparr>) \<and>
   valid_ref 
        \<lparr>arrays = [[Val ''initial''], [Val ''initial'', Val ''a'']],
         objects = [\<lparr>historyRef = 0, currentIndexOf = 0, initialStateOf = Val ''initial''\<rparr>,
                    \<lparr>historyRef = 1, currentIndexOf = 1, initialStateOf = Val ''initial''\<rparr>]\<rparr> 1 \<and>
   \<not> is_noop (state_of 
        \<lparr>arrays = [[Val ''initial''], [Val ''initial'', Val ''a'']],
         objects = [\<lparr>historyRef = 0, currentIndexOf = 0, initialStateOf = Val ''initial''\<rparr>,
                    \<lparr>historyRef = 1, currentIndexOf = 1, initialStateOf = Val ''initial''\<rparr>]\<rparr> 1) UNDO \<lparr>maxHistory = 3, enableRedo = True\<rparr> \<and>
   fst (historyReducerR 
        \<lparr>arrays = [[Val ''initial''], [Val ''initial'', Val ''a'']],
         objects = [\<lparr>historyRef = 0, currentIndexOf = 0, initialStateOf = Val ''initial''\<rparr>,
                    \<lparr>historyRef = 1, currentIndexOf = 1, initialStateOf = Val ''initial''\<rparr>]\<rparr> 1 UNDO \<lparr>maxHistory = 3, enableRedo = True\<rparr>) = 2 \<and>
   is_noop (state_of 
        \<lparr>arrays = [[Val ''initial''], [Val ''initial'', Val ''a'']],
         objects = [\<lparr>historyRef = 0, currentIndexOf = 0, initialStateOf = Val ''initial''\<rparr>,
                    \<lparr>historyRef = 1, currentIndexOf = 1, initialStateOf = Val ''initial''\<rparr>]\<rparr> 1) REDO \<lparr>maxHistory = 3, enableRedo = True\<rparr> \<and>
   historyReducerR 
        \<lparr>arrays = [[Val ''initial''], [Val ''initial'', Val ''a'']],
         objects = [\<lparr>historyRef = 0, currentIndexOf = 0, initialStateOf = Val ''initial''\<rparr>,
                    \<lparr>historyRef = 1, currentIndexOf = 1, initialStateOf = Val ''initial''\<rparr>]\<rparr> 1 REDO \<lparr>maxHistory = 3, enableRedo = True\<rparr> = (1, 
        \<lparr>arrays = [[Val ''initial''], [Val ''initial'', Val ''a'']],
         objects = [\<lparr>historyRef = 0, currentIndexOf = 0, initialStateOf = Val ''initial''\<rparr>,
                    \<lparr>historyRef = 1, currentIndexOf = 1, initialStateOf = Val ''initial''\<rparr>]\<rparr>)"
proof -
  have v: "valid_ref 
        \<lparr>arrays = [[Val ''initial''], [Val ''initial'', Val ''a'']],
         objects = [\<lparr>historyRef = 0, currentIndexOf = 0, initialStateOf = Val ''initial''\<rparr>,
                    \<lparr>historyRef = 1, currentIndexOf = 1, initialStateOf = Val ''initial''\<rparr>]\<rparr> 1"
    by (simp add: valid_ref_def)
  have n: "\<not> is_noop (state_of 
        \<lparr>arrays = [[Val ''initial''], [Val ''initial'', Val ''a'']],
         objects = [\<lparr>historyRef = 0, currentIndexOf = 0, initialStateOf = Val ''initial''\<rparr>,
                    \<lparr>historyRef = 1, currentIndexOf = 1, initialStateOf = Val ''initial''\<rparr>]\<rparr> 1) UNDO \<lparr>maxHistory = 3, enableRedo = True\<rparr>"
    by (simp add: is_noop_def state_of_def)
  have m: "is_noop (state_of 
        \<lparr>arrays = [[Val ''initial''], [Val ''initial'', Val ''a'']],
         objects = [\<lparr>historyRef = 0, currentIndexOf = 0, initialStateOf = Val ''initial''\<rparr>,
                    \<lparr>historyRef = 1, currentIndexOf = 1, initialStateOf = Val ''initial''\<rparr>]\<rparr> 1) REDO \<lparr>maxHistory = 3, enableRedo = True\<rparr>"
    by (simp add: is_noop_def state_of_def)
  have c: "run_actionsR (createInitialR (Val ''initial'')) [SET_STATE (Val ''a'')] \<lparr>maxHistory = 3, enableRedo = True\<rparr>
     = (1, 
        \<lparr>arrays = [[Val ''initial''], [Val ''initial'', Val ''a'']],
         objects = [\<lparr>historyRef = 0, currentIndexOf = 0, initialStateOf = Val ''initial''\<rparr>,
                    \<lparr>historyRef = 1, currentIndexOf = 1, initialStateOf = Val ''initial''\<rparr>]\<rparr>)"
    by (simp add: createInitialR_def store_defs js_slice_def rel_index_def Let_def)
  from C5_no_mutation_fresh_unless_noop [OF v, of UNDO "\<lparr>maxHistory = 3, enableRedo = True\<rparr>"] n
  have u: "fst (historyReducerR 
        \<lparr>arrays = [[Val ''initial''], [Val ''initial'', Val ''a'']],
         objects = [\<lparr>historyRef = 0, currentIndexOf = 0, initialStateOf = Val ''initial''\<rparr>,
                    \<lparr>historyRef = 1, currentIndexOf = 1, initialStateOf = Val ''initial''\<rparr>]\<rparr> 1 UNDO \<lparr>maxHistory = 3, enableRedo = True\<rparr>) = 2"
    by (simp del: historyReducerR.simps)
  from C5_no_mutation_fresh_unless_noop [OF v, of REDO "\<lparr>maxHistory = 3, enableRedo = True\<rparr>"] m
  have r: "historyReducerR 
        \<lparr>arrays = [[Val ''initial''], [Val ''initial'', Val ''a'']],
         objects = [\<lparr>historyRef = 0, currentIndexOf = 0, initialStateOf = Val ''initial''\<rparr>,
                    \<lparr>historyRef = 1, currentIndexOf = 1, initialStateOf = Val ''initial''\<rparr>]\<rparr> 1 REDO \<lparr>maxHistory = 3, enableRedo = True\<rparr> = (1, 
        \<lparr>arrays = [[Val ''initial''], [Val ''initial'', Val ''a'']],
         objects = [\<lparr>historyRef = 0, currentIndexOf = 0, initialStateOf = Val ''initial''\<rparr>,
                    \<lparr>historyRef = 1, currentIndexOf = 1, initialStateOf = Val ''initial''\<rparr>]\<rparr>)"
    by (simp del: historyReducerR.simps)
  from c v n u m r show ?thesis by (simp only: simp_thms)
qed

text \<open>
  C5 as stated fails in the no-op cases it names: \<open>undo\<close> on a fresh manager
  (\<open>currentIndex\<close> 0), \<open>redo\<close> with no later entry, and \<open>redo\<close> with redo disabled after an
  \<open>undo\<close>, each return the very reference they were given, not a new record.
\<close>

theorem C5_counterexample:
  "fst (historyReducerR (snd (createInitialR (Val ''initial'')))
          (fst (createInitialR (Val ''initial''))) UNDO \<lparr>maxHistory = 50, enableRedo = True\<rparr>)
     = fst (createInitialR (Val ''initial'')) \<and>
   fst (historyReducerR (snd (createInitialR (Val ''initial'')))
          (fst (createInitialR (Val ''initial''))) REDO \<lparr>maxHistory = 50, enableRedo = True\<rparr>)
     = fst (createInitialR (Val ''initial'')) \<and>
   fst (historyReducerR
          (snd (run_actionsR (createInitialR (Val ''initial''))
                  [SET_STATE (Val ''a''), UNDO] \<lparr>maxHistory = 50, enableRedo = False\<rparr>))
          (fst (run_actionsR (createInitialR (Val ''initial''))
                  [SET_STATE (Val ''a''), UNDO] \<lparr>maxHistory = 50, enableRedo = False\<rparr>))
          REDO \<lparr>maxHistory = 50, enableRedo = False\<rparr>)
     = fst (run_actionsR (createInitialR (Val ''initial''))
              [SET_STATE (Val ''a''), UNDO] \<lparr>maxHistory = 50, enableRedo = False\<rparr>)"
  by (simp add: createInitialR_def store_defs js_slice_def rel_index_def Let_def)

text \<open>
  C6. \<open>redo()\<close>, the manager's method, increments the held \<open>currentIndex\<close> by exactly 1
  if and only if \<open>enableRedo\<close> is true and \<open>currentIndex < history.length - 1\<close>; then the
  new state is the old one with the cursor moved one step, and otherwise the state (and
  the manager) is unchanged. The method returns the state it now holds; history and
  initial state are never touched. The same holds along every call sequence: with
  \<open>enableRedo = false\<close> a \<open>redo\<close> call is a no-op on every reachable state, whatever
  lies after the cursor, and once \<open>currentIndex = history.length - 1\<close> one or two \<open>redo\<close>
  calls change nothing.
\<close>

theorem C6_redo:
  "((currentIndex (fst (redo m)) = currentIndex (currentState m) + 1
      \<longleftrightarrow> enableRedo (options m) \<and>
          currentIndex (currentState m) < int (length (history (currentState m))) - 1) \<and>
   (enableRedo (options m) \<and>
    currentIndex (currentState m) < int (length (history (currentState m))) - 1
      \<longrightarrow> fst (redo m)
            = (currentState m)\<lparr>currentIndex := currentIndex (currentState m) + 1\<rparr>) \<and>
   (\<not> (enableRedo (options m) \<and>
        currentIndex (currentState m) < int (length (history (currentState m))) - 1)
      \<longrightarrow> redo m = (currentState m, m)) \<and>
   snd (redo m) = m\<lparr>currentState := fst (redo m)\<rparr> \<and>
   history (fst (redo m)) = history (currentState m) \<and>
   initialState (fst (redo m)) = initialState (currentState m) \<and>
   (currentIndex (currentState m) = int (length (history (currentState m))) - 1
      \<longrightarrow> redo m = (currentState m, m) \<and> redo (snd (redo m)) = (currentState m, m))) \<and>
   ((currentIndex (reached init opts (cs @ [Redo])) = currentIndex (reached init opts cs) + 1
      \<longleftrightarrow> enableRedo opts \<and>
          currentIndex (reached init opts cs)
            < int (length (history (reached init opts cs))) - 1) \<and>
   (enableRedo opts \<and>
    currentIndex (reached init opts cs) < int (length (history (reached init opts cs))) - 1
      \<longrightarrow> reached init opts (cs @ [Redo])
            = (reached init opts cs)\<lparr>currentIndex := currentIndex (reached init opts cs) + 1\<rparr>) \<and>
   (\<not> (enableRedo opts \<and>
        currentIndex (reached init opts cs) < int (length (history (reached init opts cs))) - 1)
      \<longrightarrow> reached init opts (cs @ [Redo]) = reached init opts cs) \<and>
   (\<not> enableRedo opts
      \<longrightarrow> reached init opts (cs @ [Redo]) = reached init opts cs) \<and>
   (currentIndex (reached init opts cs) = int (length (history (reached init opts cs))) - 1
      \<longrightarrow> reached init opts (cs @ [Redo]) = reached init opts cs \<and>
          reached init opts (cs @ [Redo, Redo]) = reached init opts cs))"
proof (rule conjI)
  show "(currentIndex (fst (redo m)) = currentIndex (currentState m) + 1
      \<longleftrightarrow> enableRedo (options m) \<and>
          currentIndex (currentState m) < int (length (history (currentState m))) - 1) \<and>
   (enableRedo (options m) \<and>
    currentIndex (currentState m) < int (length (history (currentState m))) - 1
      \<longrightarrow> fst (redo m)
            = (currentState m)\<lparr>currentIndex := currentIndex (currentState m) + 1\<rparr>) \<and>
   (\<not> (enableRedo (options m) \<and>
        currentIndex (currentState m) < int (length (history (currentState m))) - 1)
      \<longrightarrow> redo m = (currentState m, m)) \<and>
   snd (redo m) = m\<lparr>currentState := fst (redo m)\<rparr> \<and>
   history (fst (redo m)) = history (currentState m) \<and>
   initialState (fst (redo m)) = initialState (currentState m) \<and>
   (currentIndex (currentState m) = int (length (history (currentState m))) - 1
      \<longrightarrow> redo m = (currentState m, m) \<and> redo (snd (redo m)) = (currentState m, m))"
    by (simp add: redo_def Let_def)
next
  have two: "reached init opts (cs @ [Redo, Redo])
      = historyReducer (historyReducer (reached init opts cs) REDO opts) REDO opts"
    using reached_snoc(3) [of init opts "cs @ [Redo]"] reached_snoc(3) [of init opts cs]
    by simp
  show "(currentIndex (reached init opts (cs @ [Redo])) = currentIndex (reached init opts cs) + 1
      \<longleftrightarrow> enableRedo opts \<and>
          currentIndex (reached init opts cs)
            < int (length (history (reached init opts cs))) - 1) \<and>
   (enableRedo opts \<and>
    currentIndex (reached init opts cs) < int (length (history (reached init opts cs))) - 1
      \<longrightarrow> reached init opts (cs @ [Redo])
            = (reached init opts cs)\<lparr>currentIndex := currentIndex (reached init opts cs) + 1\<rparr>) \<and>
   (\<not> (enableRedo opts \<and>
        currentIndex (reached init opts cs) < int (length (history (reached init opts cs))) - 1)
      \<longrightarrow> reached init opts (cs @ [Redo]) = reached init opts cs) \<and>
   (\<not> enableRedo opts
      \<longrightarrow> reached init opts (cs @ [Redo]) = reached init opts cs) \<and>
   (currentIndex (reached init opts cs) = int (length (history (reached init opts cs))) - 1
      \<longrightarrow> reached init opts (cs @ [Redo]) = reached init opts cs \<and>
          reached init opts (cs @ [Redo, Redo]) = reached init opts cs)"
    by (simp add: two reached_snoc)
qed

theorem C6_redo_witness:
  "run_calls (createHistoryManager (Val ''initial'') \<lparr>maxHistory = 50, enableRedo = True\<rparr>) [SetState (Val ''a''), Undo]
     = \<lparr>currentState = \<lparr>history = [Val ''initial'', Val ''a''], currentIndex = 0, initialState = Val ''initial''\<rparr>, options = \<lparr>maxHistory = 50, enableRedo = True\<rparr>\<rparr> \<and>
   enableRedo (options (\<lparr>currentState = \<lparr>history = [Val ''initial'', Val ''a''], currentIndex = 0, initialState = Val ''initial''\<rparr>, options = \<lparr>maxHistory = 50, enableRedo = True\<rparr>\<rparr>)) \<and>
   currentIndex (currentState (\<lparr>currentState = \<lparr>history = [Val ''initial'', Val ''a''], currentIndex = 0, initialState = Val ''initial''\<rparr>, options = \<lparr>maxHistory = 50, enableRedo = True\<rparr>\<rparr>))
     < int (length (history (currentState (\<lparr>currentState = \<lparr>history = [Val ''initial'', Val ''a''], currentIndex = 0, initialState = Val ''initial''\<rparr>, options = \<lparr>maxHistory = 50, enableRedo = True\<rparr>\<rparr>)))) - 1 \<and>
   fst (redo (\<lparr>currentState = \<lparr>history = [Val ''initial'', Val ''a''], currentIndex = 0, initialState = Val ''initial''\<rparr>, options = \<lparr>maxHistory = 50, enableRedo = True\<rparr>\<rparr>))
     = \<lparr>history = [Val ''initial'', Val ''a''], currentIndex = 1, initialState = Val ''initial''\<rparr> \<and>
   reached (Val ''initial'') \<lparr>maxHistory = 50, enableRedo = True\<rparr> [SetState (Val ''a''), Undo]
     = \<lparr>history = [Val ''initial'', Val ''a''], currentIndex = 0, initialState = Val ''initial''\<rparr> \<and>
   reached (Val ''initial'') \<lparr>maxHistory = 50, enableRedo = True\<rparr> ([SetState (Val ''a''), Undo] @ [Redo])
     = \<lparr>history = [Val ''initial'', Val ''a''], currentIndex = 1, initialState = Val ''initial''\<rparr> \<and>
   reached (Val ''initial'') \<lparr>maxHistory = 50, enableRedo = True\<rparr> ([SetState (Val ''a''), Undo] @ [Redo, Redo])
     = \<lparr>history = [Val ''initial'', Val ''a''], currentIndex = 1, initialState = Val ''initial''\<rparr> \<and>
   \<not> enableRedo \<lparr>maxHistory = 50, enableRedo = False\<rparr> \<and>
   reached (Val ''initial'') \<lparr>maxHistory = 50, enableRedo = False\<rparr> [SetState (Val ''a''), Undo]
     = \<lparr>history = [Val ''initial'', Val ''a''], currentIndex = 0, initialState = Val ''initial''\<rparr> \<and>
   reached (Val ''initial'') \<lparr>maxHistory = 50, enableRedo = False\<rparr> ([SetState (Val ''a''), Undo] @ [Redo])
     = \<lparr>history = [Val ''initial'', Val ''a''], currentIndex = 0, initialState = Val ''initial''\<rparr>"
proof -
  have m0: "run_calls (createHistoryManager (Val ''initial'') \<lparr>maxHistory = 50, enableRedo = True\<rparr>) [SetState (Val ''a''), Undo]
     = \<lparr>currentState = \<lparr>history = [Val ''initial'', Val ''a''], currentIndex = 0, initialState = Val ''initial''\<rparr>, options = \<lparr>maxHistory = 50, enableRedo = True\<rparr>\<rparr>"
    by (simp add: run_defs)
  have r0: "reached (Val ''initial'') \<lparr>maxHistory = 50, enableRedo = True\<rparr> [SetState (Val ''a''), Undo]
     = \<lparr>history = [Val ''initial'', Val ''a''], currentIndex = 0, initialState = Val ''initial''\<rparr>"
    by (simp add: run_defs)
  have r1: "reached (Val ''initial'') \<lparr>maxHistory = 50, enableRedo = True\<rparr> [SetState (Val ''a''), Undo, Redo]
     = \<lparr>history = [Val ''initial'', Val ''a''], currentIndex = 1, initialState = Val ''initial''\<rparr>"
    using C6_redo [of "\<lparr>currentState = \<lparr>history = [Val ''initial'', Val ''a''], currentIndex = 0, initialState = Val ''initial''\<rparr>, options = \<lparr>maxHistory = 50, enableRedo = True\<rparr>\<rparr>" "Val ''initial''" "\<lparr>maxHistory = 50, enableRedo = True\<rparr>" "[SetState (Val ''a''), Undo]",
        THEN conjunct2, THEN conjunct2, THEN conjunct1]
    by (simp add: r0)
  have r2: "reached (Val ''initial'') \<lparr>maxHistory = 50, enableRedo = True\<rparr> [SetState (Val ''a''), Undo, Redo, Redo]
     = \<lparr>history = [Val ''initial'', Val ''a''], currentIndex = 1, initialState = Val ''initial''\<rparr>"
    using C6_redo [of "\<lparr>currentState = \<lparr>history = [Val ''initial'', Val ''a''], currentIndex = 0, initialState = Val ''initial''\<rparr>, options = \<lparr>maxHistory = 50, enableRedo = True\<rparr>\<rparr>" "Val ''initial''" "\<lparr>maxHistory = 50, enableRedo = True\<rparr>" "[SetState (Val ''a''), Undo, Redo]",
        THEN conjunct2, THEN conjunct2, THEN conjunct2, THEN conjunct2, THEN conjunct2]
    by (simp add: r1)
  have f1: "fst (redo (\<lparr>currentState = \<lparr>history = [Val ''initial'', Val ''a''], currentIndex = 0, initialState = Val ''initial''\<rparr>, options = \<lparr>maxHistory = 50, enableRedo = True\<rparr>\<rparr>))
     = \<lparr>history = [Val ''initial'', Val ''a''], currentIndex = 1, initialState = Val ''initial''\<rparr>"
    using C6_redo [of "\<lparr>currentState = \<lparr>history = [Val ''initial'', Val ''a''], currentIndex = 0, initialState = Val ''initial''\<rparr>, options = \<lparr>maxHistory = 50, enableRedo = True\<rparr>\<rparr>" "Val ''initial''" "\<lparr>maxHistory = 50, enableRedo = True\<rparr>" "[SetState (Val ''a''), Undo]",
        THEN conjunct1, THEN conjunct2, THEN conjunct1]
    by simp
  have q0: "reached (Val ''initial'') \<lparr>maxHistory = 50, enableRedo = False\<rparr> [SetState (Val ''a''), Undo]
     = \<lparr>history = [Val ''initial'', Val ''a''], currentIndex = 0, initialState = Val ''initial''\<rparr>"
    by (simp add: run_defs)
  have q1: "reached (Val ''initial'') \<lparr>maxHistory = 50, enableRedo = False\<rparr> [SetState (Val ''a''), Undo, Redo]
     = \<lparr>history = [Val ''initial'', Val ''a''], currentIndex = 0, initialState = Val ''initial''\<rparr>"
    using C6_redo [of "\<lparr>currentState = \<lparr>history = [Val ''initial'', Val ''a''], currentIndex = 0, initialState = Val ''initial''\<rparr>, options = \<lparr>maxHistory = 50, enableRedo = True\<rparr>\<rparr>" "Val ''initial''" "\<lparr>maxHistory = 50, enableRedo = False\<rparr>" "[SetState (Val ''a''), Undo]",
        THEN conjunct2, THEN conjunct2, THEN conjunct2, THEN conjunct2, THEN conjunct1]
    by (simp add: q0)
  from m0 r0 r1 r2 f1 q0 q1 show ?thesis by simp
qed

text \<open>
  C7. \<open>goToIndex(i)\<close>, for every integer \<open>i\<close> (negative and arbitrarily large ones
  included), returns a state (the operation is total: the reducer has no failing branch)
  whose \<open>currentIndex\<close> is \<open>clamp(i, 0, history.length - 1)\<close>, with the history contents
  and the initial state unchanged and no entry created.
\<close>

theorem C7_goToIndex_clamps:
  assumes "1 \<le> maxHistory opts"
  shows "currentIndex (reached init opts (cs @ [GoToIndex i]))
           = clamp i 0 (int (length (history (reached init opts cs))) - 1) \<and>
         history (reached init opts (cs @ [GoToIndex i])) = history (reached init opts cs) \<and>
         initialState (reached init opts (cs @ [GoToIndex i]))
           = initialState (reached init opts cs)"
  using wf_state_reached [OF assms, of init cs]
  by (auto simp: reached_snoc Let_def clamp_def wf_state_def)

theorem C7_goToIndex_clamps_witness:
  "1 \<le> maxHistory \<lparr>maxHistory = 50, enableRedo = True\<rparr> \<and>
   reached (Val ''initial'') \<lparr>maxHistory = 50, enableRedo = True\<rparr>
       ([SetState (Val ''a''), SetState (Val ''b'')] @ [GoToIndex (- 1)])
     = \<lparr>history = [Val ''initial'', Val ''a'', Val ''b''], currentIndex = 0,
        initialState = Val ''initial''\<rparr> \<and>
   reached (Val ''initial'') \<lparr>maxHistory = 50, enableRedo = True\<rparr>
       ([SetState (Val ''a''), SetState (Val ''b''), GoToIndex 0] @ [GoToIndex 1000])
     = \<lparr>history = [Val ''initial'', Val ''a'', Val ''b''], currentIndex = 2,
        initialState = Val ''initial''\<rparr> \<and>
   clamp (- 1) 0 2 = 0 \<and> clamp 1000 0 2 = 2"
  using C7_goToIndex_clamps [of "\<lparr>maxHistory = 50, enableRedo = True\<rparr>" "Val ''initial''"
      "[SetState (Val ''a''), SetState (Val ''b'')]" "- 1"]
    C7_goToIndex_clamps [of "\<lparr>maxHistory = 50, enableRedo = True\<rparr>" "Val ''initial''"
      "[SetState (Val ''a''), SetState (Val ''b''), GoToIndex 0]" 1000]
  by (simp add: run_defs clamp_def)

text \<open>
  C8. \<open>clear()\<close> on every reachable state yields a history of length exactly 1 whose
  single element is the pre-call current snapshot \<open>history[currentIndex]\<close> (an entry of
  the history, not the initial state), with \<open>currentIndex\<close> 0.
\<close>

theorem C8_clear:
  assumes "1 \<le> maxHistory opts"
  shows "history (reached init opts (cs @ [Clear]))
           = [history (reached init opts cs) ! nat (currentIndex (reached init opts cs))] \<and>
         nat (currentIndex (reached init opts cs)) < length (history (reached init opts cs)) \<and>
         length (history (reached init opts (cs @ [Clear]))) = 1 \<and>
         currentIndex (reached init opts (cs @ [Clear])) = 0"
  using wf_state_reached [OF assms, of init cs]
  by (auto simp: reached_snoc Let_def js_index_def wf_state_def)

theorem C8_clear_witness:
  "1 \<le> maxHistory \<lparr>maxHistory = 10, enableRedo = True\<rparr> \<and>
   reached (Val ''initial'') \<lparr>maxHistory = 10, enableRedo = True\<rparr>
       ([SetState (Val ''a''), SetState (Val ''b''), Undo] @ [Clear])
     = \<lparr>history = [Val ''a''], currentIndex = 0, initialState = Val ''initial''\<rparr>"
  using C8_clear [of "\<lparr>maxHistory = 10, enableRedo = True\<rparr>" "Val ''initial''"
      "[SetState (Val ''a''), SetState (Val ''b''), Undo]"]
  by (simp add: run_defs)

text \<open>
  C9. \<open>reset()\<close> on every reachable state yields the history \<open>[initialState]\<close>, the
  construction-time value, and \<open>currentIndex\<close> 0, whatever calls came before: also after
  the initial state has been evicted from the retained window.
\<close>

theorem C9_reset:
  "history (reached init opts (cs @ [Reset])) = [init] \<and>
   currentIndex (reached init opts (cs @ [Reset])) = 0 \<and>
   initialState (reached init opts (cs @ [Reset])) = init"
  by (simp add: reached_snoc reached_initialState)

theorem C9_reset_witness:
  "history (reached (Val ''initial'') \<lparr>maxHistory = 2, enableRedo = True\<rparr>
      [SetState (Val ''a''), SetState (Val ''b''), SetState (Val ''c'')])
     = [Val ''b'', Val ''c''] \<and>
   reached (Val ''initial'') \<lparr>maxHistory = 2, enableRedo = True\<rparr>
       ([SetState (Val ''a''), SetState (Val ''b''), SetState (Val ''c'')] @ [Reset])
     = \<lparr>history = [Val ''initial''], currentIndex = 0, initialState = Val ''initial''\<rparr>"
  using C9_reset [of "Val ''initial''" "\<lparr>maxHistory = 2, enableRedo = True\<rparr>"
      "[SetState (Val ''a''), SetState (Val ''b''), SetState (Val ''c'')]"]
  by (simp add: run_defs)

text \<open>
  C10. With \<open>enableRedo\<close> true, \<open>undo\<close> and \<open>redo\<close> are mutual inverses away from the
  boundaries: on every reachable state \<open>s\<close> with \<open>currentIndex > 0\<close>, \<open>undo\<close> then \<open>redo\<close>
  gives \<open>s\<close> back, and on every reachable \<open>s\<close> with \<open>currentIndex < history.length - 1\<close>,
  \<open>redo\<close> then \<open>undo\<close> gives \<open>s\<close> back.
\<close>

theorem C10_undo_redo_inverse:
  assumes "1 \<le> maxHistory opts" and "enableRedo opts"
  shows "(0 < currentIndex (reached init opts cs)
            \<longrightarrow> reached init opts (cs @ [Undo, Redo]) = reached init opts cs) \<and>
         (currentIndex (reached init opts cs)
              < int (length (history (reached init opts cs))) - 1
            \<longrightarrow> reached init opts (cs @ [Redo, Undo]) = reached init opts cs)"
  using wf_state_reached [OF assms(1), of init cs] assms(2)
  by (simp add: reached_append2 reached_options undo_def redo_def Let_def wf_state_def)
    (simp add: reached_def)

theorem C10_undo_redo_inverse_witness:
  "1 \<le> maxHistory \<lparr>maxHistory = 50, enableRedo = True\<rparr> \<and>
   enableRedo \<lparr>maxHistory = 50, enableRedo = True\<rparr> \<and>
   0 < currentIndex (reached (Val ''initial'') \<lparr>maxHistory = 50, enableRedo = True\<rparr>
         [SetState (Val ''a''), SetState (Val ''b''), Undo]) \<and>
   currentIndex (reached (Val ''initial'') \<lparr>maxHistory = 50, enableRedo = True\<rparr>
         [SetState (Val ''a''), SetState (Val ''b''), Undo])
     < int (length (history (reached (Val ''initial'') \<lparr>maxHistory = 50, enableRedo = True\<rparr>
         [SetState (Val ''a''), SetState (Val ''b''), Undo]))) - 1 \<and>
   reached (Val ''initial'') \<lparr>maxHistory = 50, enableRedo = True\<rparr>
       ([SetState (Val ''a''), SetState (Val ''b''), Undo] @ [Undo, Redo])
     = \<lparr>history = [Val ''initial'', Val ''a'', Val ''b''], currentIndex = 1,
        initialState = Val ''initial''\<rparr> \<and>
   reached (Val ''initial'') \<lparr>maxHistory = 50, enableRedo = True\<rparr>
       ([SetState (Val ''a''), SetState (Val ''b''), Undo] @ [Redo, Undo])
     = \<lparr>history = [Val ''initial'', Val ''a'', Val ''b''], currentIndex = 1,
        initialState = Val ''initial''\<rparr>"
  using C10_undo_redo_inverse [of "\<lparr>maxHistory = 50, enableRedo = True\<rparr>" "Val ''initial''"
      "[SetState (Val ''a''), SetState (Val ''b''), Undo]"]
  by (simp add: run_defs)

end
